theory Spec2Isabelle
  imports Complex_Main
begin

section \<open>Errors\<close>

text \<open>
  Modelled from the spec: the module \<^verbatim>\<open>gmt/exceptions.py\<close>, which declares the four
  exception classes that \<^verbatim>\<open>gmt/clib/utils.py\<close> imports, is not among the sources. The
  spec lists them as four distinct error kinds (unsupported platform, library not found,
  library load/validation error, invalid input), each carrying its message. None of them
  is taken to be a subclass of Python's \<^verbatim>\<open>OSError\<close>.

  The remaining constructors are the built-in Python exceptions that the modelled
  statements can raise: \<^verbatim>\<open>OSError\<close> (from \<^verbatim>\<open>ctypes.CDLL\<close>, with its text),
  \<^verbatim>\<open>IndexError\<close> (indexing past the end of an array) and \<^verbatim>\<open>ValueError\<close> (the
  minimum of an empty array).
\<close>

datatype py_error =
    GMTOSError string
  | GMTCLibError string
  | GMTCLibNotFoundError string
  | GMTInvalidInput string
  | OSError string
  | IndexError
  | ValueError

text \<open>The typed error kinds of the binding, as opposed to raw Python exceptions.\<close>

fun is_gmt_error :: "py_error \<Rightarrow> bool" where
  "is_gmt_error (GMTOSError _) = True"
| "is_gmt_error (GMTCLibError _) = True"
| "is_gmt_error (GMTCLibNotFoundError _) = True"
| "is_gmt_error (GMTInvalidInput _) = True"
| "is_gmt_error _ = False"

section \<open>Strings\<close>

text \<open>\<^verbatim>\<open>s.startswith(p)\<close>\<close>

fun startswith :: "string \<Rightarrow> string \<Rightarrow> bool" where
  "startswith s [] = True"
| "startswith [] (p # ps) = False"
| "startswith (c # cs) (p # ps) = (c = p \<and> startswith cs ps)"

text \<open>\<^verbatim>\<open>'{}'.format(n)\<close> for a non-negative integer: its decimal digits.\<close>

definition digit_char :: "nat \<Rightarrow> char" where
  "digit_char d = ''0123456789'' ! d"

fun str_nat :: "nat \<Rightarrow> string" where
  "str_nat n = (if n < 10 then [digit_char n] else str_nat (n div 10) @ [digit_char (n mod 10)])"

text \<open>\<^verbatim>\<open>"'{}'".format(s)\<close>: the text between two apostrophes (character 39).\<close>

definition squoted :: "string \<Rightarrow> string" where
  "squoted s = [CHR 0x27] @ s @ [CHR 0x27]"

section \<open>Platform Resolver\<close>

text \<open>
  \<^verbatim>\<open>clib_extension(os_name=None)\<close>. The first argument is the value of
  \<^verbatim>\<open>sys.platform\<close> in the running interpreter; the second is the optional
  \<^verbatim>\<open>os_name\<close>. The message of the error is formatted from \<^verbatim>\<open>sys.platform\<close>,
  as in the source.
\<close>

definition clib_extension :: "string \<Rightarrow> string option \<Rightarrow> py_error + string" where
  "clib_extension sys_platform os_name_arg =
     (let os_name = (case os_name_arg of None \<Rightarrow> sys_platform | Some s \<Rightarrow> s) in
      if startswith os_name ''linux'' then Inr ''so''
      else if os_name = ''darwin'' then Inr ''dylib''
      else Inl (GMTOSError (''Operating system \"'' @ sys_platform @ ''\" not supported.'')))"

section \<open>Library Locator\<close>

text \<open>
  \<^verbatim>\<open>os.path.join(a, b)\<close> of the POSIX path module, the one in use on every platform
  that \<^verbatim>\<open>clib_extension\<close> accepts.
\<close>

definition path_join :: "string \<Rightarrow> string \<Rightarrow> string" where
  "path_join a b =
     (if startswith b ''/'' then b
      else if a = [] \<or> last a = CHR ''/'' then a @ b
      else a @ ''/'' @ b)"

text \<open>
  \<^verbatim>\<open>get_clib_path(env)\<close>. \<^verbatim>\<open>os_environ\<close> is the process environment, used when
  \<^verbatim>\<open>env\<close> is \<^verbatim>\<open>None\<close>. The extension is resolved first, so its error comes
  before the environment is looked at.
\<close>

definition get_clib_path ::
  "string \<Rightarrow> (string \<rightharpoonup> string) \<Rightarrow> (string \<rightharpoonup> string) option \<Rightarrow> py_error + string" where
  "get_clib_path sys_platform os_environ env_arg =
     (case clib_extension sys_platform None of
        Inl e \<Rightarrow> Inl e
      | Inr ext \<Rightarrow>
          (let libname = ''libgmt'' @ ''.'' @ ext;
               env = (case env_arg of None \<Rightarrow> os_environ | Some m \<Rightarrow> m)
           in case env ''GMT_LIBRARY_PATH'' of
                Some dir \<Rightarrow> Inr (path_join dir libname)
              | None \<Rightarrow> Inr libname))"

section \<open>Symbol Validator\<close>

text \<open>
  A loaded shared library (\<^verbatim>\<open>ctypes.CDLL\<close>): the file it was opened from and the
  symbols it exports. \<^verbatim>\<open>hasattr(libgmt, name)\<close> holds when the symbol can be resolved.
\<close>

record cdll =
  lib_name :: string
  symbols :: "string list"

definition hasattr :: "cdll \<Rightarrow> string \<Rightarrow> bool" where
  "hasattr lib name = (name \<in> set (symbols lib))"

definition functions_list :: "string list" where
  "functions_list = [''Create_Session'', ''Get_Enum'', ''Call_Module'', ''Destroy_Session'']"

definition missing_msg :: "string \<Rightarrow> string" where
  "missing_msg func =
     ''Error loading libgmt.'' @ '' '' @ (''Couldn't access function GMT_'' @ func @ ''.'')"

text \<open>The \<^verbatim>\<open>for func in functions\<close> loop: the first missing symbol raises.\<close>

fun check_functions :: "cdll \<Rightarrow> string list \<Rightarrow> py_error + unit" where
  "check_functions lib [] = Inr ()"
| "check_functions lib (func # funcs) =
     (if \<not> hasattr lib (''GMT_'' @ func) then Inl (GMTCLibError (missing_msg func))
      else check_functions lib funcs)"

definition check_libgmt :: "cdll \<Rightarrow> py_error + unit" where
  "check_libgmt libgmt = check_functions libgmt functions_list"

section \<open>Library Loader\<close>

text \<open>
  \<^verbatim>\<open>load_libgmt(env=None)\<close>. \<^verbatim>\<open>dlopen\<close> stands for \<^verbatim>\<open>ctypes.CDLL(libpath)\<close>:
  it gives the handle, or the text of the \<^verbatim>\<open>OSError\<close> it raises. The path is built
  outside the \<^verbatim>\<open>try\<close>; the handler catches \<^verbatim>\<open>OSError\<close> only.
\<close>

definition not_found_msg :: "string \<Rightarrow> string \<Rightarrow> string" where
  "not_found_msg libpath err =
     (''Couldn't find the GMT shared library '' @ squoted libpath @ ''.'') @ [CHR 0x0A] @
     ''Original error message:'' @ [CHR 0x0A] @ err"

definition load_libgmt ::
  "string \<Rightarrow> (string \<rightharpoonup> string) \<Rightarrow> (string \<Rightarrow> string + cdll) \<Rightarrow>
   (string \<rightharpoonup> string) option \<Rightarrow> py_error + cdll" where
  "load_libgmt sys_platform os_environ dlopen env =
     (case get_clib_path sys_platform os_environ env of
        Inl e \<Rightarrow> Inl e
      | Inr libpath \<Rightarrow>
          (case dlopen libpath of
             Inl err \<Rightarrow> Inl (GMTCLibNotFoundError (not_found_msg libpath err))
           | Inr libgmt \<Rightarrow>
               (case check_libgmt libgmt of
                  Inl e \<Rightarrow>
                    (case e of
                       OSError err \<Rightarrow> Inl (GMTCLibNotFoundError (not_found_msg libpath err))
                     | _ \<Rightarrow> Inl e)
                | Inr _ \<Rightarrow> Inr libgmt)))"

section \<open>Arrays\<close>

text \<open>
  The part of NumPy that the conversions rely on. Memory is a store of buffers, a buffer
  being the list of its elements; allocation appends a buffer, so the identifier of a new
  buffer is the length of the store before. An \<^verbatim>\<open>ndarray\<close> is a view: the buffer it
  reads, the position of its first element, its shape and its strides (counted in
  elements, so the item size is 1). Two views with the same \<open>data\<close> share memory.
\<close>

type_synonym 'a store = "'a list list"

record ndarray =
  data :: nat
  offset :: int
  shape :: "nat list"
  strides :: "int list"

text \<open>
  The positions in the buffer of the elements of a view, in row-major order of the
  indices (the last index varies fastest).
\<close>

fun offsets :: "int \<Rightarrow> nat list \<Rightarrow> int list \<Rightarrow> int list" where
  "offsets off [] [] = [off]"
| "offsets off (n # ns) (s # ss) =
     concat (map (\<lambda>i. offsets (off + int i * s) ns ss) [0..<n])"
| "offsets off [] (s # ss) = []"
| "offsets off (n # ns) [] = []"

text \<open>\<^verbatim>\<open>array.ravel().tolist()\<close>: the elements of the view, in row-major order.\<close>

definition tolist :: "'a store \<Rightarrow> ndarray \<Rightarrow> 'a list" where
  "tolist st a =
     map (\<lambda>p. st ! data a ! nat p) (offsets (offset a) (shape a) (strides a))"

text \<open>
  A view is valid in a store when it has one stride per dimension, its buffer exists and
  every element lies inside the buffer. NumPy only ever hands out valid views.
\<close>

definition valid_array :: "'a store \<Rightarrow> ndarray \<Rightarrow> bool" where
  "valid_array st a =
     (length (strides a) = length (shape a) \<and> data a < length st \<and>
      list_all (\<lambda>p. 0 \<le> p \<and> p < int (length (st ! data a)))
        (offsets (offset a) (shape a) (strides a)))"

text \<open>
  \<^verbatim>\<open>array.flags.c_contiguous\<close>, as NumPy computes it: an array with a dimension of
  size 0 is contiguous; otherwise, going from the last dimension to the first and
  skipping the dimensions of size 1, each stride is the product of the sizes of the
  dimensions after it.
\<close>

fun c_contig_scan :: "int \<Rightarrow> (nat \<times> int) list \<Rightarrow> bool" where
  "c_contig_scan sd [] = True"
| "c_contig_scan sd ((n, stride) # rest) =
     (if n = 1 then c_contig_scan sd rest
      else stride = sd \<and> c_contig_scan (sd * int n) rest)"

definition c_contiguous :: "ndarray \<Rightarrow> bool" where
  "c_contiguous a =
     (0 \<in> set (shape a) \<or> c_contig_scan 1 (rev (zip (shape a) (strides a))))"

text \<open>The strides of a freshly allocated row-major array of the given shape.\<close>

fun c_strides :: "nat list \<Rightarrow> int list" where
  "c_strides [] = []"
| "c_strides (n # ns) = int (prod_list ns) # c_strides ns"

text \<open>
  \<^verbatim>\<open>array.copy(order='C')\<close>: a new buffer holding the elements in row-major order,
  and a view of it with the same shape.
\<close>

definition ndarray_copy :: "'a store \<Rightarrow> ndarray \<Rightarrow> ndarray \<times> 'a store" where
  "ndarray_copy st a =
     (\<lparr>data = length st, offset = 0, shape = shape a, strides = c_strides (shape a)\<rparr>,
      st @ [tolist st a])"

text \<open>\<^verbatim>\<open>as_c_contiguous(array)\<close>\<close>

definition as_c_contiguous :: "'a store \<Rightarrow> ndarray \<Rightarrow> ndarray \<times> 'a store" where
  "as_c_contiguous st array =
     (if \<not> c_contiguous array then ndarray_copy st array else (array, st))"

text \<open>
  \<^verbatim>\<open>array[:]\<close>: a view of the whole array, on the same memory. An array without
  dimensions cannot be sliced.
\<close>

definition slice_all :: "ndarray \<Rightarrow> py_error + ndarray" where
  "slice_all a = (if shape a = [] then Inl IndexError else Inr a)"

section \<open>Coordinate arithmetic\<close>

text \<open>
  The extractor computes on the coordinates with NumPy, in the data type of each
  coordinate array: a subtraction of unsigned integers wraps around, one of floating-point
  numbers rounds. These operations are parameters of the model. An element of type \<open>'c\<close>
  is a NumPy scalar (a value of some data type), and the operations are
  \<^item> \<open>np_subtract\<close>: the difference \<^verbatim>\<open>x - y\<close> of two elements of one array,
  \<^item> \<open>np_allclose\<close>: \<^verbatim>\<open>np.allclose(a, b)\<close> for an array and a scalar, called with
    NumPy's default tolerances,
  \<^item> \<open>np_min\<close> and \<open>np_max\<close>: \<^verbatim>\<open>a.min()\<close> and \<^verbatim>\<open>a.max()\<close> of an array that is not
    empty,
  \<^item> \<open>np_arange\<close>: \<^verbatim>\<open>np.arange(n)\<close>, the index 0, 1, ..., n-1 that xarray gives to a
    dimension without coordinates.
\<close>

record 'c numpy_ops =
  np_subtract :: "'c \<Rightarrow> 'c \<Rightarrow> 'c"
  np_allclose :: "'c list \<Rightarrow> 'c \<Rightarrow> bool"
  np_min :: "'c list \<Rightarrow> 'c"
  np_max :: "'c list \<Rightarrow> 'c"
  np_arange :: "nat \<Rightarrow> 'c list"

text \<open>\<^verbatim>\<open>coord[1:] - coord[0:-1]\<close>, element by element.\<close>

definition coord_diffs :: "'c numpy_ops \<Rightarrow> 'c list \<Rightarrow> 'c list" where
  "coord_diffs np coord = map2 (np_subtract np) (drop 1 coord) (butlast coord)"

text \<open>\<^verbatim>\<open>coord.min()\<close> and \<^verbatim>\<open>coord.max()\<close>; an empty array has neither.\<close>

definition array_min :: "'c numpy_ops \<Rightarrow> 'c list \<Rightarrow> py_error + 'c" where
  "array_min np coord = (if coord = [] then Inl ValueError else Inr (np_min np coord))"

definition array_max :: "'c numpy_ops \<Rightarrow> 'c list \<Rightarrow> py_error + 'c" where
  "array_max np coord = (if coord = [] then Inl ValueError else Inr (np_max np coord))"

section \<open>Grid Extractor\<close>

text \<open>
  A labeled grid (\<^verbatim>\<open>xarray.DataArray\<close>): the names of its dimensions, the coordinate
  arrays that were given for named dimensions (each a one-dimensional array, by the list of
  its elements) and the array of data.
\<close>

record 'c dataarray =
  dims :: "string list"
  coords :: "string \<rightharpoonup> 'c list"
  grid_values :: ndarray

text \<open>
  The size of a named dimension: the size of the data along the axis of that name. A
  \<^verbatim>\<open>DataArray\<close> has one name per axis of its data; should the name have no axis, the
  size is 0.
\<close>

fun dim_index :: "string \<Rightarrow> string list \<Rightarrow> nat" where
  "dim_index d [] = 0"
| "dim_index d (x # xs) = (if x = d then 0 else Suc (dim_index d xs))"

definition dim_size :: "'c dataarray \<Rightarrow> string \<Rightarrow> nat" where
  "dim_size grid d =
     (let k = dim_index d (dims grid); s = shape (grid_values grid)
      in if k < length s then s ! k else 0)"

text \<open>
  \<^verbatim>\<open>grid.coords[dim].values\<close> for a dimension of the grid: the coordinate array given
  for it, or the default index when none was given.
\<close>

definition coord_values :: "'c numpy_ops \<Rightarrow> 'c dataarray \<Rightarrow> string \<Rightarrow> 'c list" where
  "coord_values np grid d =
     (case coords grid d of
        Some coord \<Rightarrow> coord
      | None \<Rightarrow> np_arange np (dim_size grid d))"

definition spacing_msg :: "string \<Rightarrow> string" where
  "spacing_msg dname =
     ''Grid appears to have irregular spacing in the '' @ squoted dname @ '' dimension.''"

definition dims_msg :: "nat \<Rightarrow> string" where
  "dims_msg n = ''Invalid number of grid dimensions '' @ squoted (str_nat n) @ ''. Must be 2.''"

text \<open>
  The body of the loop for one dimension: what it appends to \<open>region\<close> and to \<open>inc\<close>,
  or the exception it raises.
\<close>

definition dim_step ::
  "'c numpy_ops \<Rightarrow> 'c dataarray \<Rightarrow> string \<Rightarrow> py_error + 'c list \<times> 'c" where
  "dim_step np grid dname =
     (let coord = coord_values np grid dname;
          coord_incs = coord_diffs np coord
      in case coord_incs of
           [] \<Rightarrow> Inl IndexError
         | coord_inc # _ \<Rightarrow>
             if \<not> np_allclose np coord_incs coord_inc
             then Inl (GMTInvalidInput (spacing_msg dname))
             else (case array_min np coord of
                     Inl e \<Rightarrow> Inl e
                   | Inr lo \<Rightarrow>
                       (case array_max np coord of
                          Inl e \<Rightarrow> Inl e
                        | Inr hi \<Rightarrow> Inr ([lo, hi], coord_inc))))"

text \<open>The loop \<^verbatim>\<open>for dim in grid.dims[::-1]\<close>, given the dimensions still to visit.\<close>

fun dims_loop ::
  "'c numpy_ops \<Rightarrow> 'c dataarray \<Rightarrow> string list \<Rightarrow> 'c list \<Rightarrow> 'c list \<Rightarrow>
   py_error + 'c list \<times> 'c list" where
  "dims_loop np grid [] region inc = Inr (region, inc)"
| "dims_loop np grid (dname # ds) region inc =
     (case dim_step np grid dname of
        Inl e \<Rightarrow> Inl e
      | Inr (bounds, coord_inc) \<Rightarrow> dims_loop np grid ds (region @ bounds) (inc @ [coord_inc]))"

text \<open>
  \<^verbatim>\<open>dataarray_to_matrix(grid)\<close>, in a store: the result is the matrix, the region
  and the increment, with the store after the call.
\<close>

definition dataarray_to_matrix ::
  "'c numpy_ops \<Rightarrow> 'a store \<Rightarrow> 'c dataarray \<Rightarrow>
   py_error + (ndarray \<times> 'c list \<times> 'c list) \<times> 'a store" where
  "dataarray_to_matrix np st grid =
     (if length (dims grid) \<noteq> 2 then Inl (GMTInvalidInput (dims_msg (length (dims grid))))
      else
        case dims_loop np grid (rev (dims grid)) [] [] of
          Inl e \<Rightarrow> Inl e
        | Inr (region, inc) \<Rightarrow>
            (case slice_all (grid_values grid) of
               Inl e \<Rightarrow> Inl e
             | Inr v \<Rightarrow>
                 (let (matrix, st') = as_c_contiguous st v
                  in Inr ((matrix, region, inc), st'))))"

section \<open>Data types of coordinates\<close>

text \<open>
  The integer data types of 8 and 16 bits, with the operations as NumPy computes them.
  An element is the integer it holds. A difference is reduced into the range of the data
  type. \<^verbatim>\<open>np.allclose(a, b)\<close> compares \<^verbatim>\<open>|a - b|\<close>, computed in floating point from the
  integers without rounding, with \<^verbatim>\<open>1e-08 + 1e-05 * |b|\<close>, which lies strictly between 0
  and 1 for these data types: the test holds exactly when every element of \<open>a\<close> equals
  \<open>b\<close>.
\<close>

datatype int_dtype = Int8 | UInt8 | Int16 | UInt16

fun dtype_min :: "int_dtype \<Rightarrow> int" where
  "dtype_min Int8 = - 128"
| "dtype_min UInt8 = 0"
| "dtype_min Int16 = - 32768"
| "dtype_min UInt16 = 0"

fun dtype_max :: "int_dtype \<Rightarrow> int" where
  "dtype_max Int8 = 127"
| "dtype_max UInt8 = 255"
| "dtype_max Int16 = 32767"
| "dtype_max UInt16 = 65535"

definition wrap :: "int_dtype \<Rightarrow> int \<Rightarrow> int" where
  "wrap dt x = dtype_min dt + (x - dtype_min dt) mod (dtype_max dt - dtype_min dt + 1)"

definition int_ops :: "int_dtype \<Rightarrow> int numpy_ops" where
  "int_ops dt =
     \<lparr>np_subtract = (\<lambda>x y. wrap dt (x - y)),
      np_allclose = (\<lambda>a b. list_all (\<lambda>x. x = b) a),
      np_min = (\<lambda>a. fold min (tl a) (hd a)),
      np_max = (\<lambda>a. fold max (tl a) (hd a)),
      np_arange = (\<lambda>n. map int [0..<n])\<rparr>"

section \<open>Exact arithmetic on an axis\<close>

text \<open>
  A uniformly spaced axis: \<open>n\<close> coordinates from \<open>start\<close>, each one \<open>step\<close> after the
  one before. It is used to state properties of the extractor, not by the extractor.
\<close>

definition uniform_axis :: "'a::comm_ring_1 \<Rightarrow> 'a \<Rightarrow> nat \<Rightarrow> 'a list" where
  "uniform_axis start step n = map (\<lambda>i. start + of_nat i * step) [0..<n]"

text \<open>
  With \<open>val\<close> giving the number that an element holds, NumPy computes exactly on a
  coordinate array when the differences it returns hold the differences of the numbers
  (no wrap-around, no rounding), the closeness test accepts differences that all hold the
  same number as the first one, and the minimum and the maximum it returns hold the least
  and the greatest of the numbers.
\<close>

definition exact_on :: "'c numpy_ops \<Rightarrow> ('c \<Rightarrow> real) \<Rightarrow> 'c list \<Rightarrow> bool" where
  "exact_on np val coord =
     (map val (coord_diffs np coord) =
        map2 (-) (drop 1 (map val coord)) (butlast (map val coord)) \<and>
      (list_all (\<lambda>d. val d = val (hd (coord_diffs np coord))) (coord_diffs np coord) \<longrightarrow>
         np_allclose np (coord_diffs np coord) (hd (coord_diffs np coord))) \<and>
      val (np_min np coord) = Min (set (map val coord)) \<and>
      val (np_max np coord) = Max (set (map val coord)))"

section \<open>Properties of the loader\<close>

lemma check_functions_result:
  "check_functions lib fs = Inr () \<or> (\<exists>f. check_functions lib fs = Inl (GMTCLibError (missing_msg f)))"
  by (induction fs) auto

lemma check_libgmt_not_oserror: "check_libgmt lib \<noteq> Inl (OSError t)"
  using check_functions_result [of lib functions_list] by (auto simp: check_libgmt_def)

lemma get_clib_path_not_oserror: "get_clib_path sys_platform os_environ env \<noteq> Inl (OSError t)"
  by (auto simp: get_clib_path_def clib_extension_def Let_def split: sum.splits option.splits if_splits)

section \<open>Properties of arrays\<close>

lemma length_offsets:
  "length ss = length ns \<Longrightarrow> length (offsets off ns ss) = prod_list ns"
proof (induction ns arbitrary: off ss)
  case Nil
  then show ?case by simp
next
  case (Cons n ns)
  then obtain s ss' where ss: "ss = s # ss'" and len: "length ss' = length ns"
    by (cases ss) auto
  have "\<And>i. length (offsets (off + int i * s) ns ss') = prod_list ns"
    using Cons.IH [OF len] by simp
  then show ?case
    by (simp add: ss length_concat comp_def sum_list_triv)
qed

lemma length_c_strides: "length (c_strides ns) = length ns"
  by (induction ns) simp_all

lemma concat_blocks:
  "concat (map (\<lambda>i. map (\<lambda>k. off + int i * int p + int k) [0..<p]) [0..<n]) =
   map (\<lambda>k. off + int k) [0..<n * p]"
proof (induction n)
  case 0
  show ?case by simp
next
  case (Suc n)
  have "[0..<n * p + p] = [0..<n * p] @ [n * p..<n * p + p]"
    by (rule upt_add_eq_append) simp
  moreover have "[n * p..<n * p + p] = map (\<lambda>k. k + n * p) [0..<p]"
    by (simp add: map_add_upt add.commute)
  ultimately have "[0..<Suc n * p] = [0..<n * p] @ map (\<lambda>k. k + n * p) [0..<p]"
    by (simp add: add.commute)
  then show ?case using Suc
    by (simp add: comp_def algebra_simps)
qed

lemma offsets_c_strides:
  "offsets off ns (c_strides ns) = map (\<lambda>k. off + int k) [0..<prod_list ns]"
proof (induction ns arbitrary: off)
  case Nil
  show ?case by simp
next
  case (Cons n ns)
  show ?case
    using concat_blocks [of off "prod_list ns" n]
    by (simp add: Cons.IH add.assoc)
qed

lemma c_contig_scan_snoc:
  "c_contig_scan sd (xs @ [(n, s)]) =
     (c_contig_scan sd xs \<and> (n = 1 \<or> s = sd * int (prod_list (map fst xs))))"
  by (induction sd xs rule: c_contig_scan.induct) (auto simp: algebra_simps)

lemma c_contig_scan_c_strides: "c_contig_scan 1 (rev (zip ns (c_strides ns)))"
proof (induction ns)
  case Nil
  show ?case by simp
next
  case (Cons n ns)
  have "map fst (rev (zip ns (c_strides ns))) = rev ns"
    by (simp add: rev_map [symmetric] length_c_strides)
  then show ?case using Cons
    by (simp add: c_contig_scan_snoc)
qed

lemma c_contiguous_copy: "c_contiguous (fst (ndarray_copy st a))"
  by (simp add: ndarray_copy_def c_contiguous_def c_contig_scan_c_strides)

lemma length_tolist:
  "length (strides a) = length (shape a) \<Longrightarrow> length (tolist st a) = prod_list (shape a)"
  by (simp add: tolist_def length_offsets)

lemma tolist_fresh:
  "length xs = prod_list ns \<Longrightarrow>
   tolist (st @ [xs]) \<lparr>data = length st, offset = 0, shape = ns, strides = c_strides ns\<rparr> = xs"
proof -
  assume len: "length xs = prod_list ns"
  have "map (\<lambda>p. xs ! nat p) (map (\<lambda>k. 0 + int k) [0..<prod_list ns]) = map ((!) xs) [0..<length xs]"
    by (simp add: len comp_def)
  then show ?thesis
    by (simp add: tolist_def offsets_c_strides map_nth)
qed

lemma valid_fresh:
  "length xs = prod_list ns \<Longrightarrow>
   valid_array (st @ [xs]) \<lparr>data = length st, offset = 0, shape = ns, strides = c_strides ns\<rparr>"
  by (simp add: valid_array_def length_c_strides offsets_c_strides list_all_iff)

lemma tolist_store_append:
  "data a < length st \<Longrightarrow> tolist (st @ [xs]) a = tolist st a"
  by (simp add: tolist_def nth_append)

lemma valid_store_append:
  "valid_array st a \<Longrightarrow> valid_array (st @ [xs]) a"
  by (simp add: valid_array_def nth_append)

lemma copy_props:
  assumes "valid_array st a" and "ndarray_copy st a = (a', st')"
  shows "data a' = length st" and "st' = st @ [tolist st a]" and "shape a' = shape a"
    and "c_contiguous a'" and "tolist st' a' = tolist st a" and "valid_array st' a'"
    and "tolist st' a = tolist st a" and "valid_array st' a" and "data a' \<noteq> data a"
proof -
  have len: "length (tolist st a) = prod_list (shape a)"
    using assms(1) by (simp add: valid_array_def length_tolist)
  have a': "a' = \<lparr>data = length st, offset = 0, shape = shape a, strides = c_strides (shape a)\<rparr>"
    and st': "st' = st @ [tolist st a]"
    using assms(2) by (auto simp: ndarray_copy_def)
  show "data a' = length st" "shape a' = shape a" by (simp_all add: a')
  show "st' = st @ [tolist st a]" by (rule st')
  show "c_contiguous a'" using c_contiguous_copy [of st a] assms(2) by simp
  show "tolist st' a' = tolist st a" unfolding a' st' by (rule tolist_fresh [OF len])
  show "valid_array st' a'" unfolding a' st' by (rule valid_fresh [OF len])
  show "tolist st' a = tolist st a" unfolding st'
    using assms(1) by (simp add: tolist_store_append valid_array_def)
  show "valid_array st' a" unfolding st' by (rule valid_store_append [OF assms(1)])
  show "data a' \<noteq> data a" using assms(1) by (simp add: a' valid_array_def)
qed

lemma as_c_contiguous_shape: "shape (fst (as_c_contiguous st a)) = shape a"
  by (simp add: as_c_contiguous_def ndarray_copy_def)

lemma as_c_contiguous_flag: "c_contiguous (fst (as_c_contiguous st a))"
  by (simp add: as_c_contiguous_def c_contiguous_copy)

section \<open>Properties of the grid extractor\<close>

lemma length_coord_diffs: "length (coord_diffs np coord) = length coord - 1"
  by (simp add: coord_diffs_def)

lemma nth_coord_diffs:
  "Suc k < length coord \<Longrightarrow>
   coord_diffs np coord ! k = np_subtract np (coord ! Suc k) (coord ! k)"
  by (simp add: coord_diffs_def nth_butlast)

lemma coord_diffs_Cons_nonempty: "coord_diffs np coord = i # r \<Longrightarrow> coord \<noteq> []"
  by (auto simp: coord_diffs_def)

lemma coord_diffs_Cons_length: "coord_diffs np coord = i # r \<Longrightarrow> 2 \<le> length coord"
  using length_coord_diffs [of np coord] by simp

lemma coord_diffs_Cons_first:
  "coord_diffs np coord = i # r \<Longrightarrow> i = np_subtract np (coord ! 1) (coord ! 0)"
  using nth_coord_diffs [of 0 coord np] coord_diffs_Cons_length [of np coord i r] by simp

lemma dim_step_irregular:
  "coord_diffs np (coord_values np grid d) = i # r \<Longrightarrow> \<not> np_allclose np (i # r) i \<Longrightarrow>
   dim_step np grid d = Inl (GMTInvalidInput (spacing_msg d))"
  by (simp add: dim_step_def)

lemma dim_step_regular:
  "coord_diffs np (coord_values np grid d) = i # r \<Longrightarrow> np_allclose np (i # r) i \<Longrightarrow>
   dim_step np grid d =
     Inr ([np_min np (coord_values np grid d), np_max np (coord_values np grid d)], i)"
  using coord_diffs_Cons_nonempty [of np "coord_values np grid d" i r]
  by (simp add: dim_step_def array_min_def array_max_def Let_def)

lemma dim_step_short:
  "length (coord_values np grid d) < 2 \<Longrightarrow> dim_step np grid d = Inl IndexError"
  using length_coord_diffs [of np "coord_values np grid d"]
  by (cases "coord_diffs np (coord_values np grid d)") (simp_all add: dim_step_def)

lemma dim_step_Inr:
  "dim_step np grid d = Inr (bounds, i) \<Longrightarrow>
   \<exists>r. coord_diffs np (coord_values np grid d) = i # r \<and> np_allclose np (i # r) i \<and>
     bounds = [np_min np (coord_values np grid d), np_max np (coord_values np grid d)]"
proof -
  assume a: "dim_step np grid d = Inr (bounds, i)"
  then obtain j r where d: "coord_diffs np (coord_values np grid d) = j # r"
    by (cases "coord_diffs np (coord_values np grid d)") (simp_all add: dim_step_def)
  from a d have ok: "np_allclose np (j # r) j"
    by (cases "np_allclose np (j # r) j") (simp_all add: dim_step_def)
  from a show ?thesis
    using dim_step_regular [of np grid d j r, OF d ok] d ok by simp
qed

lemma dataarray_to_matrix_two:
  "dims grid = [d1, d2] \<Longrightarrow>
   dataarray_to_matrix np st grid =
     (case dim_step np grid d2 of
        Inl e \<Rightarrow> Inl e
      | Inr (b2, i2) \<Rightarrow>
          (case dim_step np grid d1 of
             Inl e \<Rightarrow> Inl e
           | Inr (b1, i1) \<Rightarrow>
               (case slice_all (grid_values grid) of
                  Inl e \<Rightarrow> Inl e
                | Inr v \<Rightarrow>
                    Inr ((fst (as_c_contiguous st v), b2 @ b1, [i2, i1]),
                         snd (as_c_contiguous st v)))))"
  by (simp add: dataarray_to_matrix_def split: sum.splits prod.splits)

lemma dataarray_to_matrix_Inr_dims:
  "dataarray_to_matrix np st grid = Inr r \<Longrightarrow> \<exists>d1 d2. dims grid = [d1, d2]"
proof -
  assume a: "dataarray_to_matrix np st grid = Inr r"
  then have "length (dims grid) = 2"
    by (cases "length (dims grid) = 2") (simp_all add: dataarray_to_matrix_def)
  then show ?thesis
    by (cases "dims grid"; cases "tl (dims grid)") auto
qed

lemma length_uniform_axis: "length (uniform_axis start step n) = n"
  by (simp add: uniform_axis_def)

lemma diffs_uniform_axis:
  "map2 (-) (drop (Suc 0) (uniform_axis start step n)) (butlast (uniform_axis start step n)) =
   replicate (n - 1) step"
proof (rule nth_equalityI)
  show "length (map2 (-) (drop (Suc 0) (uniform_axis start step n)) (butlast (uniform_axis start step n))) =
      length (replicate (n - 1) step)"
    by (simp add: length_uniform_axis)
next
  fix k
  assume "k < length (map2 (-) (drop (Suc 0) (uniform_axis start step n)) (butlast (uniform_axis start step n)))"
  then have k: "Suc k < n"
    by (simp add: length_uniform_axis)
  then have "map2 (-) (drop (Suc 0) (uniform_axis start step n)) (butlast (uniform_axis start step n)) ! k =
      uniform_axis start step n ! Suc k - uniform_axis start step n ! k"
    by (simp add: length_uniform_axis nth_butlast)
  also have "\<dots> = step"
    using k by (simp add: uniform_axis_def algebra_simps)
  finally show "map2 (-) (drop (Suc 0) (uniform_axis start step n)) (butlast (uniform_axis start step n)) ! k =
      replicate (n - 1) step ! k"
    using k by simp
qed

lemma map_of_int_uniform_axis:
  "map real_of_int (uniform_axis start step n) = uniform_axis (real_of_int start) (real_of_int step) n"
  by (simp add: uniform_axis_def)


lemma Min_uniform_axis:
  assumes "0 < n"
  shows "Min (set (uniform_axis start step n)) =
     (if 0 \<le> step then start else start + real (n - 1) * step)"
proof (cases "0 \<le> step")
  case True
  have "Min (set (uniform_axis start step n)) = start"
  proof (rule Min_eqI)
    show "finite (set (uniform_axis start step n))" by simp
    show "start \<in> set (uniform_axis start step n)"
      using assms by (auto simp: uniform_axis_def image_iff intro!: bexI [of _ 0])
    fix y assume "y \<in> set (uniform_axis start step n)"
    then obtain i where "y = start + real i * step" by (auto simp: uniform_axis_def)
    then show "start \<le> y" using True by simp
  qed
  with True show ?thesis by simp
next
  case False
  have "Min (set (uniform_axis start step n)) = start + real (n - 1) * step"
  proof (rule Min_eqI)
    show "finite (set (uniform_axis start step n))" by simp
    show "start + real (n - 1) * step \<in> set (uniform_axis start step n)"
      using assms by (auto simp: uniform_axis_def image_iff intro!: bexI [of _ "n - 1"])
    fix y assume "y \<in> set (uniform_axis start step n)"
    then obtain i where i: "i < n" "y = start + real i * step" by (auto simp: uniform_axis_def)
    then have "real i \<le> real (n - 1)" by simp
    then have "real (n - 1) * step \<le> real i * step"
      using False by (intro mult_right_mono_neg) simp_all
    then show "start + real (n - 1) * step \<le> y" using i by simp
  qed
  with False show ?thesis by simp
qed

lemma Max_uniform_axis:
  assumes "0 < n"
  shows "Max (set (uniform_axis start step n)) =
     (if 0 \<le> step then start + real (n - 1) * step else start)"
proof (cases "0 \<le> step")
  case True
  have "Max (set (uniform_axis start step n)) = start + real (n - 1) * step"
  proof (rule Max_eqI)
    show "finite (set (uniform_axis start step n))" by simp
    show "start + real (n - 1) * step \<in> set (uniform_axis start step n)"
      using assms by (auto simp: uniform_axis_def image_iff intro!: bexI [of _ "n - 1"])
    fix y assume "y \<in> set (uniform_axis start step n)"
    then obtain i where i: "i < n" "y = start + real i * step" by (auto simp: uniform_axis_def)
    then have "real i \<le> real (n - 1)" by simp
    then have "real i * step \<le> real (n - 1) * step"
      using True by (intro mult_right_mono) simp_all
    then show "y \<le> start + real (n - 1) * step" using i by simp
  qed
  with True show ?thesis by simp
next
  case False
  have "Max (set (uniform_axis start step n)) = start"
  proof (rule Max_eqI)
    show "finite (set (uniform_axis start step n))" by simp
    show "start \<in> set (uniform_axis start step n)"
      using assms by (auto simp: uniform_axis_def image_iff intro!: bexI [of _ 0])
    fix y assume "y \<in> set (uniform_axis start step n)"
    then obtain i where "y = start + real i * step" by (auto simp: uniform_axis_def)
    moreover have "real i * step \<le> 0" using False by (simp add: mult_nonneg_nonpos)
    ultimately show "y \<le> start" by simp
  qed
  with False show ?thesis by simp
qed

lemma exact_on_uniform_step:
  assumes v: "map val (coord_values np grid d) = uniform_axis start step n"
    and n: "2 \<le> n" and ex: "exact_on np val (coord_values np grid d)"
  shows "\<exists>i. dim_step np grid d =
        Inr ([np_min np (coord_values np grid d), np_max np (coord_values np grid d)], i) \<and>
      val i = step \<and>
      val (np_min np (coord_values np grid d)) =
        (if 0 \<le> step then start else start + real (n - 1) * step) \<and>
      val (np_max np (coord_values np grid d)) =
        (if 0 \<le> step then start + real (n - 1) * step else start)"
proof -
  let ?c = "coord_values np grid d"
  obtain m where m: "n - 1 = Suc m" using n by (cases "n - 1") simp_all
  have dv: "map val (coord_diffs np ?c) = replicate (Suc m) step"
    using ex m by (simp add: exact_on_def v diffs_uniform_axis)
  then obtain i r where ir: "coord_diffs np ?c = i # r"
    by (cases "coord_diffs np ?c") simp_all
  have vi: "val i = step" and vr: "map val r = replicate m step"
    using dv ir by simp_all
  have "\<forall>x \<in> set r. val x = step"
  proof
    fix x assume "x \<in> set r"
    then have "val x \<in> set (map val r)" by simp
    then show "val x = step" by (simp add: vr)
  qed
  then have "list_all (\<lambda>d. val d = val (hd (coord_diffs np ?c))) (coord_diffs np ?c)"
    by (simp add: ir vi list_all_iff)
  then have ok: "np_allclose np (i # r) i"
    using ex by (simp add: exact_on_def ir)
  have pos: "0 < n" using n by simp
  have "val (np_min np ?c) = Min (set (uniform_axis start step n))"
    and "val (np_max np ?c) = Max (set (uniform_axis start step n))"
    using ex by (simp_all add: exact_on_def v)
  then show ?thesis
    using dim_step_regular [OF ir ok] vi
    by (simp add: Min_uniform_axis [OF pos] Max_uniform_axis [OF pos])
qed

lemma int_min_Min: "coord \<noteq> [] \<Longrightarrow> real_of_int (fold min (tl coord) (hd coord)) = Min (set (map real_of_int coord))"
proof -
  assume ne: "coord \<noteq> []"
  then have "fold min (tl coord) (hd coord) = Min (set coord)"
    using Min.set_eq_fold [of "hd coord" "tl coord"] by simp
  moreover have "real_of_int (Min (set coord)) = Min (real_of_int ` set coord)"
    using ne by (intro mono_Min_commute) (auto simp: mono_def)
  ultimately show ?thesis by simp
qed

lemma int_max_Max: "coord \<noteq> [] \<Longrightarrow> real_of_int (fold max (tl coord) (hd coord)) = Max (set (map real_of_int coord))"
proof -
  assume ne: "coord \<noteq> []"
  then have "fold max (tl coord) (hd coord) = Max (set coord)"
    using Max.set_eq_fold [of "hd coord" "tl coord"] by simp
  moreover have "real_of_int (Max (set coord)) = Max (real_of_int ` set coord)"
    using ne by (intro mono_Max_commute) (auto simp: mono_def)
  ultimately show ?thesis by simp
qed

lemma coord_diffs_int_uniform:
  "wrap dt step = step \<Longrightarrow>
   coord_diffs (int_ops dt) (uniform_axis start step n) = replicate (n - 1) step"
proof -
  assume w: "wrap dt step = step"
  have e: "coord_diffs (int_ops dt) (uniform_axis start step n) =
      map (wrap dt) (map2 (-) (drop (Suc 0) (uniform_axis start step n)) (butlast (uniform_axis start step n)))"
    by (simp add: coord_diffs_def int_ops_def split_def comp_def)
  show ?thesis
    by (simp only: e diffs_uniform_axis map_replicate w)
qed

lemma exact_on_int_uniform:
  assumes "0 < n" and "wrap dt step = step"
  shows "exact_on (int_ops dt) real_of_int (uniform_axis start step n)"
proof -
  have ne: "uniform_axis start step n \<noteq> []"
    using assms(1) length_uniform_axis [of start step n] by auto
  have m: "np_min (int_ops dt) (uniform_axis start step n) =
      fold min (tl (uniform_axis start step n)) (hd (uniform_axis start step n))"
    and x: "np_max (int_ops dt) (uniform_axis start step n) =
      fold max (tl (uniform_axis start step n)) (hd (uniform_axis start step n))"
    and a: "\<And>xs b. np_allclose (int_ops dt) xs b = list_all (\<lambda>x. x = b) xs"
    by (simp_all add: int_ops_def)
  show ?thesis
    unfolding exact_on_def coord_diffs_int_uniform [OF assms(2)] m x a
    using int_min_Min [OF ne] int_max_Max [OF ne]
    by (simp add: map_of_int_uniform_axis diffs_uniform_axis list_all_iff)
qed

lemma exact_on_first_diff:
  assumes x: "exact_on np val c" and d: "coord_diffs np c = i # r"
  shows "val i = val (c ! 1) - val (c ! 0)"
proof -
  have l: "2 \<le> length c" by (rule coord_diffs_Cons_length [OF d])
  then obtain a b zs where c: "c = a # b # zs"
    by (cases c; cases "tl c") auto
  have "map val (coord_diffs np c) =
      map2 (-) (drop 1 (map val c)) (butlast (map val c))"
    using x by (simp only: exact_on_def)
  then have "map val (i # r) = map2 (-) (drop 1 (map val c)) (butlast (map val c))"
    by (simp only: d)
  then have "hd (map val (i # r)) = hd (map2 (-) (drop 1 (map val c)) (butlast (map val c)))"
    by (simp only:)
  then show ?thesis by (simp add: c)
qed

lemma exact_on_min_max:
  "exact_on np val c \<Longrightarrow>
   val (np_min np c) = Min (set (map val c)) \<and> val (np_max np c) = Max (set (map val c))"
  by (simp only: exact_on_def)

lemma dataarray_to_matrix_Inr_parts:
  assumes a: "dataarray_to_matrix np st grid = Inr ((matrix, region, inc), st')"
  shows "\<exists>d1 d2 i1 r1 i2 r2.
     dims grid = [d1, d2] \<and>
     coord_diffs np (coord_values np grid d1) = i1 # r1 \<and>
     coord_diffs np (coord_values np grid d2) = i2 # r2 \<and>
     region = [np_min np (coord_values np grid d2), np_max np (coord_values np grid d2),
               np_min np (coord_values np grid d1), np_max np (coord_values np grid d1)] \<and>
     inc = [i2, i1] \<and> matrix = fst (as_c_contiguous st (grid_values grid))"
proof -
  from a obtain d1 d2 where dims: "dims grid = [d1, d2]"
    using dataarray_to_matrix_Inr_dims by blast
  let ?c1 = "coord_values np grid d1" and ?c2 = "coord_values np grid d2"
  note two = dataarray_to_matrix_two [OF dims, of np st]
  from a two obtain b2 i2 where s2: "dim_step np grid d2 = Inr (b2, i2)"
    by (cases "dim_step np grid d2") auto
  from a two s2 obtain b1 i1 where s1: "dim_step np grid d1 = Inr (b1, i1)"
    by (cases "dim_step np grid d1") auto
  from a two s2 s1 obtain v where v: "slice_all (grid_values grid) = Inr v"
    by (cases "slice_all (grid_values grid)") auto
  then have veq: "v = grid_values grid"
    by (auto simp: slice_all_def split: if_splits)
  from a two s2 s1 v have res: "matrix = fst (as_c_contiguous st v)" "region = b2 @ b1"
    "inc = [i2, i1]"
    by simp_all
  from dim_step_Inr [OF s2] obtain r2 where c2: "coord_diffs np ?c2 = i2 # r2"
    "b2 = [np_min np ?c2, np_max np ?c2]" by blast
  from dim_step_Inr [OF s1] obtain r1 where c1: "coord_diffs np ?c1 = i1 # r1"
    "b1 = [np_min np ?c1, np_max np ?c1]" by blast
  have "region = [np_min np ?c2, np_max np ?c2, np_min np ?c1, np_max np ?c1]"
    by (simp add: res c1 c2)
  then show ?thesis
    using dims c1(1) c2(1) res(1,3) veq by blast
qed

lemma extractor_exact_uniform:
  assumes dims: "dims grid = [d1, d2]"
    and v1: "map val (coord_values np grid d1) = uniform_axis a1 s1 n1"
    and v2: "map val (coord_values np grid d2) = uniform_axis a2 s2 n2"
    and n: "2 \<le> n1" "2 \<le> n2"
    and e1: "exact_on np val (coord_values np grid d1)"
    and e2: "exact_on np val (coord_values np grid d2)"
    and sh: "shape (grid_values grid) \<noteq> []"
  shows "\<exists>r i. dataarray_to_matrix np st grid =
        Inr ((fst (as_c_contiguous st (grid_values grid)), r, i),
             snd (as_c_contiguous st (grid_values grid))) \<and>
      map val r =
        [if 0 \<le> s2 then a2 else a2 + real (n2 - 1) * s2,
         if 0 \<le> s2 then a2 + real (n2 - 1) * s2 else a2,
         if 0 \<le> s1 then a1 else a1 + real (n1 - 1) * s1,
         if 0 \<le> s1 then a1 + real (n1 - 1) * s1 else a1] \<and>
      map val i = [s2, s1]"
proof -
  let ?c1 = "coord_values np grid d1" and ?c2 = "coord_values np grid d2"
  from exact_on_uniform_step [OF v2 n(2) e2] obtain i2 where
    s2: "dim_step np grid d2 = Inr ([np_min np ?c2, np_max np ?c2], i2)" and i2: "val i2 = s2"
    and lo2: "val (np_min np ?c2) = (if 0 \<le> s2 then a2 else a2 + real (n2 - 1) * s2)"
    and hi2: "val (np_max np ?c2) = (if 0 \<le> s2 then a2 + real (n2 - 1) * s2 else a2)"
    by blast
  from exact_on_uniform_step [OF v1 n(1) e1] obtain i1 where
    s1: "dim_step np grid d1 = Inr ([np_min np ?c1, np_max np ?c1], i1)" and i1: "val i1 = s1"
    and lo1: "val (np_min np ?c1) = (if 0 \<le> s1 then a1 else a1 + real (n1 - 1) * s1)"
    and hi1: "val (np_max np ?c1) = (if 0 \<le> s1 then a1 + real (n1 - 1) * s1 else a1)"
    by blast
  have sl: "slice_all (grid_values grid) = Inr (grid_values grid)"
    using sh by (simp add: slice_all_def)
  have r: "dataarray_to_matrix np st grid =
      Inr ((fst (as_c_contiguous st (grid_values grid)),
            [np_min np ?c2, np_max np ?c2, np_min np ?c1, np_max np ?c1], [i2, i1]),
           snd (as_c_contiguous st (grid_values grid)))"
    by (simp add: dataarray_to_matrix_two [OF dims] s1 s2 sl)
  have m: "map val [np_min np ?c2, np_max np ?c2, np_min np ?c1, np_max np ?c1] =
        [if 0 \<le> s2 then a2 else a2 + real (n2 - 1) * s2,
         if 0 \<le> s2 then a2 + real (n2 - 1) * s2 else a2,
         if 0 \<le> s1 then a1 else a1 + real (n1 - 1) * s1,
         if 0 \<le> s1 then a1 + real (n1 - 1) * s1 else a1]"
    by (simp only: list.map lo1 hi1 lo2 hi2)
  have k: "map val [i2, i1] = [s2, s1]"
    by (simp only: list.map i1 i2)
  show ?thesis
    by (intro exI) (rule conjI [OF r conjI [OF m k]])
qed

lemma int16_lat_lon_example:
  assumes dims: "dims grid = [lat, lon]"
    and la: "coords grid lat = Some (uniform_axis (- 90) 1 181)"
    and lo: "coords grid lon = Some (uniform_axis (- 180) 1 361)"
    and sh: "shape (grid_values grid) = [181, 361]"
  shows "dataarray_to_matrix (int_ops Int16) st grid =
      Inr ((fst (as_c_contiguous st (grid_values grid)), [- 180, 180, - 90, 90], [1, 1]),
           snd (as_c_contiguous st (grid_values grid)))"
proof -
  have cv: "coord_values (int_ops Int16) grid lat = uniform_axis (- 90) 1 181"
    "coord_values (int_ops Int16) grid lon = uniform_axis (- 180) 1 361"
    by (simp_all add: coord_values_def la lo)
  have w: "wrap Int16 1 = 1" by (simp add: wrap_def)
  have v1: "map real_of_int (coord_values (int_ops Int16) grid lat) = uniform_axis (- 90) 1 181"
    and v2: "map real_of_int (coord_values (int_ops Int16) grid lon) = uniform_axis (- 180) 1 361"
    by (simp_all add: cv map_of_int_uniform_axis)
  have e1: "exact_on (int_ops Int16) real_of_int (coord_values (int_ops Int16) grid lat)"
    and e2: "exact_on (int_ops Int16) real_of_int (coord_values (int_ops Int16) grid lon)"
    unfolding cv by (rule exact_on_int_uniform [OF _ w], simp)+
  have inj: "inj real_of_int" by (simp add: inj_on_def)
  have ne: "shape (grid_values grid) \<noteq> []" by (simp add: sh)
  have n: "2 \<le> (181::nat)" "2 \<le> (361::nat)" by simp_all
  let ?P = "\<lambda>r i. dataarray_to_matrix (int_ops Int16) st grid =
        Inr ((fst (as_c_contiguous st (grid_values grid)), r, i),
             snd (as_c_contiguous st (grid_values grid))) \<and>
      map real_of_int r =
        [if (0::real) \<le> 1 then - 180 else - 180 + real (361 - 1) * 1,
         if (0::real) \<le> 1 then - 180 + real (361 - 1) * 1 else - 180,
         if (0::real) \<le> 1 then - 90 else - 90 + real (181 - 1) * 1,
         if (0::real) \<le> 1 then - 90 + real (181 - 1) * 1 else - 90] \<and>
      map real_of_int i = [1, 1]"
  have "\<exists>r i. ?P r i"
    by (rule extractor_exact_uniform [OF dims v1 v2 n e1 e2 ne])
  then obtain r where "\<exists>i. ?P r i" ..
  then obtain i where all: "?P r i" ..
  from all have "map real_of_int r = map real_of_int [- 180, 180, - 90, 90]"
    by simp
  then have r: "r = [- 180, 180, - 90, 90]"
    by (simp only: inj_map_eq_map [OF inj])
  from all have "map real_of_int i = map real_of_int [1, 1]"
    by simp
  then have i: "i = [1, 1]"
    by (simp only: inj_map_eq_map [OF inj])
  from all show ?thesis
    unfolding r i by (rule conjunct1)
qed

section \<open>Claims\<close>

text \<open>
  Claim C1 (Grid Extractor, order of the outputs). When the extractor accepts a grid, the
  grid has two dimensions \<open>d1\<close> (rows) and \<open>d2\<close> (columns), visited in reversed
  order: the region is the minimum and the maximum of the coordinates of \<open>d2\<close>, then
  those of \<open>d1\<close>, and the increment is the first coordinate difference of \<open>d2\<close>, then
  that of \<open>d1\<close>, all as NumPy computes them in the data type of the coordinates; the
  matrix has the shape of the data and is C-contiguous. Where NumPy computes exactly on
  both coordinate arrays, these are the least and the greatest coordinate and the
  difference of the first two. For rows at latitudes -90 to 90 and columns at longitudes
  -180 to 180, both with step 1 and computed exactly, the region holds
  \<^verbatim>\<open>[-180, 180, -90, 90]\<close>, the increment \<^verbatim>\<open>[1, 1]\<close>, and the matrix is
  C-contiguous of shape (181, 361); for coordinates of 16-bit integers this holds with no
  condition on the arithmetic.
\<close>

theorem dataarray_to_matrix_region_inc:
  "(dataarray_to_matrix np st grid = Inr ((matrix, region, inc), st') \<longrightarrow>
      (\<exists>d1 d2 c1 c2.
         dims grid = [d1, d2] \<and> c1 = coord_values np grid d1 \<and> c2 = coord_values np grid d2 \<and>
         2 \<le> length c1 \<and> 2 \<le> length c2 \<and>
         region = [np_min np c2, np_max np c2, np_min np c1, np_max np c1] \<and>
         inc = [np_subtract np (c2 ! 1) (c2 ! 0), np_subtract np (c1 ! 1) (c1 ! 0)] \<and>
         (exact_on np val c1 \<and> exact_on np val c2 \<longrightarrow>
            map val region =
              [Min (set (map val c2)), Max (set (map val c2)),
               Min (set (map val c1)), Max (set (map val c1))] \<and>
            map val inc = [val (c2 ! 1) - val (c2 ! 0), val (c1 ! 1) - val (c1 ! 0)])) \<and>
      shape matrix = shape (grid_values grid) \<and> c_contiguous matrix) \<and>
   (dims grid = [lat, lon] \<and>
    map val (coord_values np grid lat) = uniform_axis (- 90) 1 181 \<and>
    map val (coord_values np grid lon) = uniform_axis (- 180) 1 361 \<and>
    exact_on np val (coord_values np grid lat) \<and> exact_on np val (coord_values np grid lon) \<and>
    shape (grid_values grid) = [181, 361] \<longrightarrow>
      (\<exists>m r i s. dataarray_to_matrix np st grid = Inr ((m, r, i), s) \<and>
         map val r = [- 180, 180, - 90, 90] \<and> map val i = [1, 1] \<and>
         shape m = [181, 361] \<and> c_contiguous m)) \<and>
   (dims igrid = [lat, lon] \<and>
    coords igrid lat = Some (uniform_axis (- 90) 1 181) \<and>
    coords igrid lon = Some (uniform_axis (- 180) 1 361) \<and>
    shape (grid_values igrid) = [181, 361] \<longrightarrow>
      (\<exists>m s. dataarray_to_matrix (int_ops Int16) st igrid =
           Inr ((m, [- 180, 180, - 90, 90], [1, 1]), s) \<and>
         shape m = [181, 361] \<and> c_contiguous m))"
proof (rule conjI [OF _ conjI]; rule impI)
  assume a: "dataarray_to_matrix np st grid = Inr ((matrix, region, inc), st')"
  from dataarray_to_matrix_Inr_parts [OF a] obtain d1 d2 i1 r1 i2 r2 where
    dims: "dims grid = [d1, d2]"
    and c1: "coord_diffs np (coord_values np grid d1) = i1 # r1"
    and c2: "coord_diffs np (coord_values np grid d2) = i2 # r2"
    and reg: "region = [np_min np (coord_values np grid d2), np_max np (coord_values np grid d2),
               np_min np (coord_values np grid d1), np_max np (coord_values np grid d1)]"
    and incs: "inc = [i2, i1]"
    and m: "matrix = fst (as_c_contiguous st (grid_values grid))"
    by blast
  let ?c1 = "coord_values np grid d1" and ?c2 = "coord_values np grid d2"
  have len: "2 \<le> length ?c1" "2 \<le> length ?c2"
    by (rule coord_diffs_Cons_length [OF c1], rule coord_diffs_Cons_length [OF c2])
  have inc': "inc = [np_subtract np (?c2 ! 1) (?c2 ! 0), np_subtract np (?c1 ! 1) (?c1 ! 0)]"
    using coord_diffs_Cons_first [OF c1] coord_diffs_Cons_first [OF c2]
    by (simp only: incs)
  have ex: "exact_on np val ?c1 \<and> exact_on np val ?c2 \<longrightarrow>
      map val region =
        [Min (set (map val ?c2)), Max (set (map val ?c2)),
         Min (set (map val ?c1)), Max (set (map val ?c1))] \<and>
      map val inc = [val (?c2 ! 1) - val (?c2 ! 0), val (?c1 ! 1) - val (?c1 ! 0)]"
  proof (rule impI)
    assume e: "exact_on np val ?c1 \<and> exact_on np val ?c2"
    then have e1: "exact_on np val ?c1" and e2: "exact_on np val ?c2" by blast+
    have "map val region =
        [Min (set (map val ?c2)), Max (set (map val ?c2)),
         Min (set (map val ?c1)), Max (set (map val ?c1))]"
      using exact_on_min_max [OF e1] exact_on_min_max [OF e2]
      by (simp only: reg list.map)
    moreover have "map val inc = [val (?c2 ! 1) - val (?c2 ! 0), val (?c1 ! 1) - val (?c1 ! 0)]"
      using exact_on_first_diff [OF e1 c1] exact_on_first_diff [OF e2 c2]
      by (simp only: incs list.map)
    ultimately show "map val region =
        [Min (set (map val ?c2)), Max (set (map val ?c2)),
         Min (set (map val ?c1)), Max (set (map val ?c1))] \<and>
      map val inc = [val (?c2 ! 1) - val (?c2 ! 0), val (?c1 ! 1) - val (?c1 ! 0)]"
      by (rule conjI)
  qed
  have main: "\<exists>d1 d2 c1 c2.
         dims grid = [d1, d2] \<and> c1 = coord_values np grid d1 \<and> c2 = coord_values np grid d2 \<and>
         2 \<le> length c1 \<and> 2 \<le> length c2 \<and>
         region = [np_min np c2, np_max np c2, np_min np c1, np_max np c1] \<and>
         inc = [np_subtract np (c2 ! 1) (c2 ! 0), np_subtract np (c1 ! 1) (c1 ! 0)] \<and>
         (exact_on np val c1 \<and> exact_on np val c2 \<longrightarrow>
            map val region =
              [Min (set (map val c2)), Max (set (map val c2)),
               Min (set (map val c1)), Max (set (map val c1))] \<and>
            map val inc = [val (c2 ! 1) - val (c2 ! 0), val (c1 ! 1) - val (c1 ! 0)])"
    by (intro exI)
      (rule conjI [OF dims conjI [OF refl conjI [OF refl conjI [OF len(1) conjI [OF len(2)
        conjI [OF reg conjI [OF inc' ex]]]]]]])
  have sh: "shape matrix = shape (grid_values grid)"
    by (simp only: m as_c_contiguous_shape)
  have cc: "c_contiguous matrix"
    by (simp only: m as_c_contiguous_flag)
  show "(\<exists>d1 d2 c1 c2.
         dims grid = [d1, d2] \<and> c1 = coord_values np grid d1 \<and> c2 = coord_values np grid d2 \<and>
         2 \<le> length c1 \<and> 2 \<le> length c2 \<and>
         region = [np_min np c2, np_max np c2, np_min np c1, np_max np c1] \<and>
         inc = [np_subtract np (c2 ! 1) (c2 ! 0), np_subtract np (c1 ! 1) (c1 ! 0)] \<and>
         (exact_on np val c1 \<and> exact_on np val c2 \<longrightarrow>
            map val region =
              [Min (set (map val c2)), Max (set (map val c2)),
               Min (set (map val c1)), Max (set (map val c1))] \<and>
            map val inc = [val (c2 ! 1) - val (c2 ! 0), val (c1 ! 1) - val (c1 ! 0)])) \<and>
      shape matrix = shape (grid_values grid) \<and> c_contiguous matrix"
    by (rule conjI [OF main conjI [OF sh cc]])
next
  assume g: "dims grid = [lat, lon] \<and>
    map val (coord_values np grid lat) = uniform_axis (- 90) 1 181 \<and>
    map val (coord_values np grid lon) = uniform_axis (- 180) 1 361 \<and>
    exact_on np val (coord_values np grid lat) \<and> exact_on np val (coord_values np grid lon) \<and>
    shape (grid_values grid) = [181, 361]"
  then have dims: "dims grid = [lat, lon]"
    and v1: "map val (coord_values np grid lat) = uniform_axis (- 90) 1 181"
    and v2: "map val (coord_values np grid lon) = uniform_axis (- 180) 1 361"
    and e1: "exact_on np val (coord_values np grid lat)"
    and e2: "exact_on np val (coord_values np grid lon)"
    and sh: "shape (grid_values grid) = [181, 361]"
    by blast+
  have ne: "shape (grid_values grid) \<noteq> []" by (simp add: sh)
  have n: "2 \<le> (181::nat)" "2 \<le> (361::nat)" by simp_all
  let ?P = "\<lambda>r i. dataarray_to_matrix np st grid =
        Inr ((fst (as_c_contiguous st (grid_values grid)), r, i),
             snd (as_c_contiguous st (grid_values grid))) \<and>
      map val r =
        [if (0::real) \<le> 1 then - 180 else - 180 + real (361 - 1) * 1,
         if (0::real) \<le> 1 then - 180 + real (361 - 1) * 1 else - 180,
         if (0::real) \<le> 1 then - 90 else - 90 + real (181 - 1) * 1,
         if (0::real) \<le> 1 then - 90 + real (181 - 1) * 1 else - 90] \<and>
      map val i = [1, 1]"
  have "\<exists>r i. ?P r i"
    by (rule extractor_exact_uniform [OF dims v1 v2 n e1 e2 ne])
  then obtain r where "\<exists>i. ?P r i" ..
  then obtain i where all: "?P r i" ..
  from all have res: "dataarray_to_matrix np st grid =
        Inr ((fst (as_c_contiguous st (grid_values grid)), r, i),
             snd (as_c_contiguous st (grid_values grid)))"
    by (rule conjunct1)
  from all have r: "map val r =
        [if (0::real) \<le> 1 then - 180 else - 180 + real (361 - 1) * 1,
         if (0::real) \<le> 1 then - 180 + real (361 - 1) * 1 else - 180,
         if (0::real) \<le> 1 then - 90 else - 90 + real (181 - 1) * 1,
         if (0::real) \<le> 1 then - 90 + real (181 - 1) * 1 else - 90]"
    by (rule conjunct1 [OF conjunct2])
  from all have i: "map val i = [1, 1]"
    by (rule conjunct2 [OF conjunct2])
  have r': "map val r = [- 180, 180, - 90, 90]"
    using r by simp
  have s1: "shape (fst (as_c_contiguous st (grid_values grid))) = [181, 361]"
    by (simp only: as_c_contiguous_shape sh)
  have s2: "c_contiguous (fst (as_c_contiguous st (grid_values grid)))"
    by (rule as_c_contiguous_flag)
  show "\<exists>m r i s. dataarray_to_matrix np st grid = Inr ((m, r, i), s) \<and>
         map val r = [- 180, 180, - 90, 90] \<and> map val i = [1, 1] \<and>
         shape m = [181, 361] \<and> c_contiguous m"
    by (intro exI) (rule conjI [OF res conjI [OF r' conjI [OF i conjI [OF s1 s2]]]])
next
  assume g: "dims igrid = [lat, lon] \<and>
    coords igrid lat = Some (uniform_axis (- 90) 1 181) \<and>
    coords igrid lon = Some (uniform_axis (- 180) 1 361) \<and>
    shape (grid_values igrid) = [181, 361]"
  then have dims: "dims igrid = [lat, lon]"
    and la: "coords igrid lat = Some (uniform_axis (- 90) 1 181)"
    and lo: "coords igrid lon = Some (uniform_axis (- 180) 1 361)"
    and sh: "shape (grid_values igrid) = [181, 361]"
    by blast+
  have res: "dataarray_to_matrix (int_ops Int16) st igrid =
      Inr ((fst (as_c_contiguous st (grid_values igrid)), [- 180, 180, - 90, 90], [1, 1]),
           snd (as_c_contiguous st (grid_values igrid)))"
    by (rule int16_lat_lon_example [OF dims la lo sh])
  have s1: "shape (fst (as_c_contiguous st (grid_values igrid))) = [181, 361]"
    by (simp only: as_c_contiguous_shape sh)
  have s2: "c_contiguous (fst (as_c_contiguous st (grid_values igrid)))"
    by (rule as_c_contiguous_flag)
  show "\<exists>m s. dataarray_to_matrix (int_ops Int16) st igrid =
           Inr ((m, [- 180, 180, - 90, 90], [1, 1]), s) \<and>
         shape m = [181, 361] \<and> c_contiguous m"
    by (intro exI) (rule conjI [OF res conjI [OF s1 s2]])
qed

theorem dataarray_to_matrix_region_inc_witness:
  "dataarray_to_matrix (int_ops Int16) [[1, 2, 3, 4, 5, 6 :: real]]
     \<lparr>dims = [''lat'', ''lon''], coords = [''lat'' \<mapsto> [10, 20], ''lon'' \<mapsto> [0, 5, 10]],
      grid_values = \<lparr>data = 0, offset = 0, shape = [2, 3], strides = [3, 1]\<rparr>\<rparr> =
     Inr ((\<lparr>data = 0, offset = 0, shape = [2, 3], strides = [3, 1]\<rparr>, [0, 10, 10, 20], [5, 10]),
          [[1, 2, 3, 4, 5, 6]]) \<and>
   c_contiguous \<lparr>data = 0, offset = 0, shape = [2, 3], strides = [3, 1]\<rparr> \<and>
   (\<exists>m r i s.
      dataarray_to_matrix (int_ops Int16) [replicate 65341 (0 :: real)]
        \<lparr>dims = [''lat'', ''lon''],
         coords = [''lat'' \<mapsto> uniform_axis (- 90) 1 181, ''lon'' \<mapsto> uniform_axis (- 180) 1 361],
         grid_values = \<lparr>data = 0, offset = 0, shape = [181, 361], strides = [361, 1]\<rparr>\<rparr> =
        Inr ((m, r, i), s) \<and>
      map real_of_int r = [- 180, 180, - 90, 90] \<and> map real_of_int i = [1, 1] \<and>
      shape m = [181, 361] \<and> c_contiguous m) \<and>
   (\<exists>m s.
      dataarray_to_matrix (int_ops Int16) [replicate 65341 (0 :: real)]
        \<lparr>dims = [''lat'', ''lon''],
         coords = [''lat'' \<mapsto> uniform_axis (- 90) 1 181, ''lon'' \<mapsto> uniform_axis (- 180) 1 361],
         grid_values = \<lparr>data = 0, offset = 0, shape = [181, 361], strides = [361, 1]\<rparr>\<rparr> =
        Inr ((m, [- 180, 180, - 90, 90], [1, 1]), s) \<and>
      shape m = [181, 361] \<and> c_contiguous m)"
proof -
  let ?g = "\<lparr>dims = [''lat'', ''lon''], coords = [''lat'' \<mapsto> [10, 20 :: int], ''lon'' \<mapsto> [0, 5, 10]],
      grid_values = \<lparr>data = 0, offset = 0, shape = [2, 3], strides = [3, 1]\<rparr>\<rparr>"
  let ?m = "\<lparr>data = 0, offset = 0, shape = [2, 3], strides = [3, 1]\<rparr>"
  let ?st = "[[1, 2, 3, 4, 5, 6 :: real]]"
  let ?b = "\<lparr>dims = [''lat'', ''lon''],
       coords = [''lat'' \<mapsto> uniform_axis (- 90 :: int) 1 181, ''lon'' \<mapsto> uniform_axis (- 180) 1 361],
       grid_values = \<lparr>data = 0, offset = 0, shape = [181, 361], strides = [361, 1]\<rparr>\<rparr>"
  have e: "dataarray_to_matrix (int_ops Int16) ?st ?g = Inr ((?m, [0, 10, 10, 20], [5, 10]), ?st)"
    by (simp add: dataarray_to_matrix_def dim_step_def coord_values_def coord_diffs_def
        int_ops_def wrap_def array_min_def array_max_def slice_all_def as_c_contiguous_def
        c_contiguous_def)
  note p = dataarray_to_matrix_region_inc [where np = "int_ops Int16" and st = ?st and grid = ?g
      and matrix = ?m and region = "[0, 10, 10, 20]" and inc = "[5, 10]" and st' = ?st
      and val = real_of_int, THEN conjunct1, THEN mp, OF e]
  note c = p [THEN conjunct2, THEN conjunct2]
  have cv: "coord_values (int_ops Int16) ?b ''lat'' = uniform_axis (- 90) 1 181"
    "coord_values (int_ops Int16) ?b ''lon'' = uniform_axis (- 180) 1 361"
    by (simp_all add: coord_values_def)
  have w: "wrap Int16 1 = 1" by (simp add: wrap_def)
  have h1: "dims ?b = [''lat'', ''lon'']" by simp
  have h2: "map real_of_int (coord_values (int_ops Int16) ?b ''lat'') = uniform_axis (- 90) 1 181"
    by (simp add: cv map_of_int_uniform_axis)
  have h3: "map real_of_int (coord_values (int_ops Int16) ?b ''lon'') = uniform_axis (- 180) 1 361"
    by (simp add: cv map_of_int_uniform_axis)
  have h4: "exact_on (int_ops Int16) real_of_int (coord_values (int_ops Int16) ?b ''lat'')"
    unfolding cv by (rule exact_on_int_uniform [OF _ w]) simp
  have h5: "exact_on (int_ops Int16) real_of_int (coord_values (int_ops Int16) ?b ''lon'')"
    unfolding cv by (rule exact_on_int_uniform [OF _ w]) simp
  have h6: "shape (grid_values ?b) = [181, 361]" by simp
  note q = dataarray_to_matrix_region_inc [where np = "int_ops Int16"
      and st = "[replicate 65341 (0 :: real)]" and grid = ?b
      and lat = "''lat''" and lon = "''lon''" and val = real_of_int,
      THEN conjunct2, THEN conjunct1, THEN mp,
      OF conjI [OF h1 conjI [OF h2 conjI [OF h3 conjI [OF h4 conjI [OF h5 h6]]]]]]
  have k1: "coords ?b ''lat'' = Some (uniform_axis (- 90) 1 181)"
    and k2: "coords ?b ''lon'' = Some (uniform_axis (- 180) 1 361)"
    by simp_all
  note z = dataarray_to_matrix_region_inc [where st = "[replicate 65341 (0 :: real)]"
      and igrid = ?b and lat = "''lat''" and lon = "''lon''",
      THEN conjunct2, THEN conjunct2, THEN mp,
      OF conjI [OF h1 conjI [OF k1 conjI [OF k2 h6]]]]
  show ?thesis
    by (rule conjI [OF e conjI [OF c conjI [OF q z]]])
qed

text \<open>
  Claim C2 (Platform Resolver). An identifier that starts with \<^verbatim>\<open>linux\<close> gives
  \<^verbatim>\<open>so\<close> and the identifier \<^verbatim>\<open>darwin\<close> gives \<^verbatim>\<open>dylib\<close>; any other identifier
  should fail with the unsupported-operating-system error naming that identifier. The
  source formats the message from \<^verbatim>\<open>sys.platform\<close> instead: asked about
  \<^verbatim>\<open>win32\<close> on a Linux interpreter, the error names \<^verbatim>\<open>linux\<close>.
\<close>

theorem clib_extension_names_sys_platform:
  "clib_extension ''linux'' (Some ''win32'') =
     Inl (GMTOSError ''Operating system \"linux\" not supported.'')"
  by (simp add: clib_extension_def)

text \<open>
  Claim C3 (contiguity normalization). \<^verbatim>\<open>as_c_contiguous\<close> copies on demand. A
  C-contiguous array is returned as it is, on the same memory, and nothing is allocated.
  An array that is not C-contiguous gives a view of a newly allocated buffer, which is
  C-contiguous and has the same shape and the same elements, the array given being left
  as it was. Normalizing the result again changes nothing.
\<close>

theorem as_c_contiguous_copy_on_demand:
  "(c_contiguous a \<longrightarrow> as_c_contiguous st a = (a, st)) \<and>
   (valid_array st a \<and> \<not> c_contiguous a \<and> as_c_contiguous st a = (a', st') \<longrightarrow>
      data a' = length st \<and> data a' \<noteq> data a \<and> st' = st @ [tolist st a] \<and>
      c_contiguous a' \<and> shape a' = shape a \<and> tolist st' a' = tolist st a \<and>
      valid_array st' a' \<and> tolist st' a = tolist st a) \<and>
   (valid_array st a \<and> as_c_contiguous st a = (a', st') \<longrightarrow>
      c_contiguous a' \<and> shape a' = shape a \<and> tolist st' a' = tolist st a \<and>
      valid_array st' a' \<and> as_c_contiguous st' a' = (a', st'))"
proof (intro conjI impI)
  assume "c_contiguous a"
  then show "as_c_contiguous st a = (a, st)" by (simp add: as_c_contiguous_def)
next
  assume h: "valid_array st a \<and> \<not> c_contiguous a \<and> as_c_contiguous st a = (a', st')"
  then have "ndarray_copy st a = (a', st')" by (auto simp: as_c_contiguous_def)
  with h show "data a' = length st" "data a' \<noteq> data a" "st' = st @ [tolist st a]"
    "c_contiguous a'" "shape a' = shape a" "tolist st' a' = tolist st a"
    "valid_array st' a'" "tolist st' a = tolist st a"
    using copy_props [of st a a' st'] by simp_all
next
  assume h: "valid_array st a \<and> as_c_contiguous st a = (a', st')"
  have props: "c_contiguous a' \<and> shape a' = shape a \<and> tolist st' a' = tolist st a \<and>
      valid_array st' a'"
  proof (cases "c_contiguous a")
    case True
    with h show ?thesis by (auto simp: as_c_contiguous_def)
  next
    case False
    with h have "ndarray_copy st a = (a', st')" by (simp add: as_c_contiguous_def)
    with h show ?thesis using copy_props [of st a a' st'] by simp
  qed
  then show "c_contiguous a'" "shape a' = shape a" "tolist st' a' = tolist st a"
    "valid_array st' a'" by simp_all
  from props show "as_c_contiguous st' a' = (a', st')" by (simp add: as_c_contiguous_def)
qed

theorem as_c_contiguous_copy_on_demand_witness:
  "c_contiguous \<lparr>data = 0, offset = 0, shape = [3], strides = [1]\<rparr> \<and>
   as_c_contiguous [[8, 9, 10 :: int]] \<lparr>data = 0, offset = 0, shape = [3], strides = [1]\<rparr> =
     (\<lparr>data = 0, offset = 0, shape = [3], strides = [1]\<rparr>, [[8, 9, 10]]) \<and>
   valid_array [[1, 2, 3, 4, 5, 6 :: int]] \<lparr>data = 0, offset = 0, shape = [3], strides = [2]\<rparr> \<and>
   \<not> c_contiguous \<lparr>data = 0, offset = 0, shape = [3], strides = [2]\<rparr> \<and>
   as_c_contiguous [[1, 2, 3, 4, 5, 6 :: int]] \<lparr>data = 0, offset = 0, shape = [3], strides = [2]\<rparr> =
     (\<lparr>data = 1, offset = 0, shape = [3], strides = [1]\<rparr>, [[1, 2, 3, 4, 5, 6], [1, 3, 5]]) \<and>
   c_contiguous \<lparr>data = 1, offset = 0, shape = [3], strides = [1]\<rparr> \<and>
   tolist [[1, 2, 3, 4, 5, 6 :: int], [1, 3, 5]] \<lparr>data = 1, offset = 0, shape = [3], strides = [1]\<rparr> =
     tolist [[1, 2, 3, 4, 5, 6]] \<lparr>data = 0, offset = 0, shape = [3], strides = [2]\<rparr> \<and>
   as_c_contiguous [[1, 2, 3, 4, 5, 6 :: int], [1, 3, 5]]
       \<lparr>data = 1, offset = 0, shape = [3], strides = [1]\<rparr> =
     (\<lparr>data = 1, offset = 0, shape = [3], strides = [1]\<rparr>, [[1, 2, 3, 4, 5, 6], [1, 3, 5]])"
proof -
  have v: "valid_array [[1, 2, 3, 4, 5, 6 :: int]] \<lparr>data = 0, offset = 0, shape = [3], strides = [2]\<rparr>"
    by (simp add: valid_array_def upt_rec)
  have n: "\<not> c_contiguous \<lparr>data = 0, offset = 0, shape = [3], strides = [2]\<rparr>"
    by (simp add: c_contiguous_def)
  have c: "c_contiguous \<lparr>data = 0, offset = 0, shape = [3], strides = [1]\<rparr>"
    by (simp add: c_contiguous_def)
  have r: "as_c_contiguous [[1, 2, 3, 4, 5, 6 :: int]] \<lparr>data = 0, offset = 0, shape = [3], strides = [2]\<rparr> =
     (\<lparr>data = 1, offset = 0, shape = [3], strides = [1]\<rparr>, [[1, 2, 3, 4, 5, 6], [1, 3, 5]])"
    by (simp add: as_c_contiguous_def c_contiguous_def ndarray_copy_def tolist_def upt_rec)
  have p1: "as_c_contiguous [[8, 9, 10 :: int]] \<lparr>data = 0, offset = 0, shape = [3], strides = [1]\<rparr> =
     (\<lparr>data = 0, offset = 0, shape = [3], strides = [1]\<rparr>, [[8, 9, 10]])"
    using c as_c_contiguous_copy_on_demand [of "\<lparr>data = 0, offset = 0, shape = [3], strides = [1]\<rparr>"
        "[[8, 9, 10 :: int]]"]
    by blast
  have p2: "c_contiguous \<lparr>data = 1, offset = 0, shape = [3], strides = [1]\<rparr> \<and>
     tolist [[1, 2, 3, 4, 5, 6 :: int], [1, 3, 5]] \<lparr>data = 1, offset = 0, shape = [3], strides = [1]\<rparr> =
       tolist [[1, 2, 3, 4, 5, 6]] \<lparr>data = 0, offset = 0, shape = [3], strides = [2]\<rparr> \<and>
     as_c_contiguous [[1, 2, 3, 4, 5, 6 :: int], [1, 3, 5]]
         \<lparr>data = 1, offset = 0, shape = [3], strides = [1]\<rparr> =
       (\<lparr>data = 1, offset = 0, shape = [3], strides = [1]\<rparr>, [[1, 2, 3, 4, 5, 6], [1, 3, 5]])"
    using v n r
      as_c_contiguous_copy_on_demand [of "\<lparr>data = 0, offset = 0, shape = [3], strides = [2]\<rparr>"
        "[[1, 2, 3, 4, 5, 6 :: int]]" "\<lparr>data = 1, offset = 0, shape = [3], strides = [1]\<rparr>"
        "[[1, 2, 3, 4, 5, 6], [1, 3, 5]]"]
    by blast
  show ?thesis
    using c v n r p1 p2 by blast
qed

text \<open>
  Claim C4 (Grid Extractor, one dimension of the loop). For every grid of two
  dimensions and each dimension visited, the extractor should either fail with the
  invalid-input error naming the dimension, when the coordinate differences are not all
  close to the first one, or append the minimum and the maximum to the region and the
  first difference to the increment. For a dimension with a single coordinate it does
  neither: there is no difference, so none differs from another, and taking the first one
  raises Python's \<^verbatim>\<open>IndexError\<close>. Here the dimension visited first, \<^verbatim>\<open>lon\<close>, has
  the single coordinate 7.
\<close>

theorem dims_loop_no_first_difference:
  "coord_diffs (int_ops Int16) [7] = [] \<and>
   dims_loop (int_ops Int16)
     \<lparr>dims = [''lat'', ''lon''],
      coords = [''lat'' \<mapsto> [10, 20], ''lon'' \<mapsto> [7]],
      grid_values = \<lparr>data = 0, offset = 0, shape = [2, 1], strides = [1, 1]\<rparr>\<rparr>
     [''lon'', ''lat''] [] [] = Inl IndexError \<and>
   dataarray_to_matrix (int_ops Int16) [[1, 2 :: real]]
     \<lparr>dims = [''lat'', ''lon''],
      coords = [''lat'' \<mapsto> [10, 20], ''lon'' \<mapsto> [7]],
      grid_values = \<lparr>data = 0, offset = 0, shape = [2, 1], strides = [1, 1]\<rparr>\<rparr> =
     Inl IndexError \<and>
   \<not> is_gmt_error IndexError"
  by (simp add: dataarray_to_matrix_def dim_step_def coord_values_def coord_diffs_def)

text \<open>
  Claim C5 (Grid Extractor, number of dimensions). A grid whose number of dimensions is
  not two fails with the invalid-input error, whose message holds the actual number (a
  grid with three dimensions fails naming \<^verbatim>\<open>3\<close>); the result is the error alone.
\<close>

theorem dataarray_to_matrix_dims_count:
  "length (dims grid) \<noteq> 2 \<Longrightarrow>
   dataarray_to_matrix np st grid =
     Inl (GMTInvalidInput
           (''Invalid number of grid dimensions '' @ squoted (str_nat (length (dims grid))) @
            ''. Must be 2.'')) \<and>
   (length (dims grid) = 3 \<longrightarrow>
      dataarray_to_matrix np st grid =
        Inl (GMTInvalidInput (''Invalid number of grid dimensions '' @ squoted ''3'' @ ''. Must be 2.'')))"
  by (simp add: dataarray_to_matrix_def dims_msg_def digit_char_def)

theorem dataarray_to_matrix_dims_count_witness:
  "length (dims \<lparr>dims = [''time'', ''lat'', ''lon''], coords = (Map.empty :: string \<rightharpoonup> int list),
      grid_values = \<lparr>data = 0, offset = 0, shape = [1, 1, 1], strides = [1, 1, 1]\<rparr>\<rparr>) \<noteq> 2 \<and>
   dataarray_to_matrix (int_ops Int16) [[0::real]]
     \<lparr>dims = [''time'', ''lat'', ''lon''], coords = Map.empty,
      grid_values = \<lparr>data = 0, offset = 0, shape = [1, 1, 1], strides = [1, 1, 1]\<rparr>\<rparr> =
     Inl (GMTInvalidInput (''Invalid number of grid dimensions '' @ squoted ''3'' @ ''. Must be 2.''))"
proof -
  let ?g = "\<lparr>dims = [''time'', ''lat'', ''lon''], coords = (Map.empty :: string \<rightharpoonup> int list),
      grid_values = \<lparr>data = 0, offset = 0, shape = [1, 1, 1], strides = [1, 1, 1]\<rparr>\<rparr>"
  have h: "length (dims ?g) \<noteq> 2" and k: "length (dims ?g) = 3" by simp_all
  have "dataarray_to_matrix (int_ops Int16) [[0::real]] ?g =
     Inl (GMTInvalidInput (''Invalid number of grid dimensions '' @ squoted ''3'' @ ''. Must be 2.''))"
    by (rule dataarray_to_matrix_dims_count [OF h, THEN conjunct2, THEN mp, OF k])
  with h show ?thesis by (rule conjI)
qed

text \<open>
  Claim C6 (Symbol Validator). The four entry points \<^verbatim>\<open>GMT_Create_Session\<close>,
  \<^verbatim>\<open>GMT_Get_Enum\<close>, \<^verbatim>\<open>GMT_Call_Module\<close> and \<^verbatim>\<open>GMT_Destroy_Session\<close> are checked
  in this order. A handle that misses some of them fails with the library-load error
  naming the first missing one only; a handle with all four passes with no error.
\<close>

theorem check_libgmt_first_missing:
  "(\<not> hasattr lib ''GMT_Create_Session'' \<longrightarrow>
      check_libgmt lib =
        Inl (GMTCLibError ''Error loading libgmt. Couldn't access function GMT_Create_Session.'')) \<and>
   (hasattr lib ''GMT_Create_Session'' \<and> \<not> hasattr lib ''GMT_Get_Enum'' \<longrightarrow>
      check_libgmt lib =
        Inl (GMTCLibError ''Error loading libgmt. Couldn't access function GMT_Get_Enum.'')) \<and>
   (hasattr lib ''GMT_Create_Session'' \<and> hasattr lib ''GMT_Get_Enum'' \<and>
    \<not> hasattr lib ''GMT_Call_Module'' \<longrightarrow>
      check_libgmt lib =
        Inl (GMTCLibError ''Error loading libgmt. Couldn't access function GMT_Call_Module.'')) \<and>
   (hasattr lib ''GMT_Create_Session'' \<and> hasattr lib ''GMT_Get_Enum'' \<and>
    hasattr lib ''GMT_Call_Module'' \<and> \<not> hasattr lib ''GMT_Destroy_Session'' \<longrightarrow>
      check_libgmt lib =
        Inl (GMTCLibError ''Error loading libgmt. Couldn't access function GMT_Destroy_Session.'')) \<and>
   (hasattr lib ''GMT_Create_Session'' \<and> hasattr lib ''GMT_Get_Enum'' \<and>
    hasattr lib ''GMT_Call_Module'' \<and> hasattr lib ''GMT_Destroy_Session'' \<longrightarrow>
      check_libgmt lib = Inr ())"
  by (simp add: check_libgmt_def functions_list_def missing_msg_def)

theorem check_libgmt_first_missing_witness:
  "check_libgmt \<lparr>lib_name = ''libgmt.so'', symbols = []\<rparr> =
     Inl (GMTCLibError ''Error loading libgmt. Couldn't access function GMT_Create_Session.'') \<and>
   check_libgmt \<lparr>lib_name = ''libgmt.so'', symbols = [''GMT_Create_Session'', ''GMT_Call_Module'']\<rparr> =
     Inl (GMTCLibError ''Error loading libgmt. Couldn't access function GMT_Get_Enum.'') \<and>
   check_libgmt \<lparr>lib_name = ''libgmt.so'',
       symbols = [''GMT_Destroy_Session'', ''GMT_Get_Enum'', ''GMT_Create_Session'']\<rparr> =
     Inl (GMTCLibError ''Error loading libgmt. Couldn't access function GMT_Call_Module.'') \<and>
   check_libgmt \<lparr>lib_name = ''libgmt.so'',
       symbols = [''GMT_Call_Module'', ''GMT_Get_Enum'', ''GMT_Create_Session'']\<rparr> =
     Inl (GMTCLibError ''Error loading libgmt. Couldn't access function GMT_Destroy_Session.'') \<and>
   check_libgmt \<lparr>lib_name = ''libgmt.so'',
       symbols = [''GMT_Call_Module'', ''GMT_Get_Enum'', ''GMT_Destroy_Session'', ''GMT_Option'',
                  ''GMT_Create_Session'']\<rparr> = Inr ()"
  using
    check_libgmt_first_missing [of "\<lparr>lib_name = ''libgmt.so'', symbols = []\<rparr>"]
    check_libgmt_first_missing
      [of "\<lparr>lib_name = ''libgmt.so'', symbols = [''GMT_Create_Session'', ''GMT_Call_Module'']\<rparr>"]
    check_libgmt_first_missing
      [of "\<lparr>lib_name = ''libgmt.so'',
            symbols = [''GMT_Destroy_Session'', ''GMT_Get_Enum'', ''GMT_Create_Session'']\<rparr>"]
    check_libgmt_first_missing
      [of "\<lparr>lib_name = ''libgmt.so'',
            symbols = [''GMT_Call_Module'', ''GMT_Get_Enum'', ''GMT_Create_Session'']\<rparr>"]
    check_libgmt_first_missing
      [of "\<lparr>lib_name = ''libgmt.so'',
            symbols = [''GMT_Call_Module'', ''GMT_Get_Enum'', ''GMT_Destroy_Session'', ''GMT_Option'',
                       ''GMT_Create_Session'']\<rparr>"]
  by (simp add: hasattr_def)

text \<open>
  Claim C7 (Library Loader). When opening the library at the located path fails, the
  loader raises the library-not-found error, whose message holds the path and the text
  of the system error. No raw \<^verbatim>\<open>OSError\<close> leaves the loader. When the opened handle
  fails the symbol validation, the loader raises that error and returns no handle: a
  handle that is returned has passed the validation.
\<close>

theorem load_libgmt_errors:
  "(get_clib_path sys_platform os_environ env = Inr libpath \<and> dlopen libpath = Inl err \<longrightarrow>
      load_libgmt sys_platform os_environ dlopen env =
        Inl (GMTCLibNotFoundError
              (''Couldn't find the GMT shared library '' @ squoted libpath @ ''.'' @ [CHR 0x0A] @
               ''Original error message:'' @ [CHR 0x0A] @ err))) \<and>
   (\<forall>t. load_libgmt sys_platform os_environ dlopen env \<noteq> Inl (OSError t)) \<and>
   (get_clib_path sys_platform os_environ env = Inr libpath \<and> dlopen libpath = Inr libgmt \<and>
    check_libgmt libgmt = Inl e \<longrightarrow>
      load_libgmt sys_platform os_environ dlopen env = Inl e) \<and>
   (load_libgmt sys_platform os_environ dlopen env = Inr libgmt \<longrightarrow>
      check_libgmt libgmt = Inr ())"
proof (intro conjI allI impI)
  assume "get_clib_path sys_platform os_environ env = Inr libpath \<and> dlopen libpath = Inl err"
  then show "load_libgmt sys_platform os_environ dlopen env =
        Inl (GMTCLibNotFoundError
              (''Couldn't find the GMT shared library '' @ squoted libpath @ ''.'' @ [CHR 0x0A] @
               ''Original error message:'' @ [CHR 0x0A] @ err))"
    by (simp add: load_libgmt_def not_found_msg_def)
next
  fix t
  show "load_libgmt sys_platform os_environ dlopen env \<noteq> Inl (OSError t)"
    using get_clib_path_not_oserror [of sys_platform os_environ env t]
    by (auto simp: load_libgmt_def check_libgmt_not_oserror split: sum.splits py_error.splits)
next
  assume "get_clib_path sys_platform os_environ env = Inr libpath \<and> dlopen libpath = Inr libgmt \<and>
    check_libgmt libgmt = Inl e"
  then show "load_libgmt sys_platform os_environ dlopen env = Inl e"
    using check_libgmt_not_oserror [of libgmt]
    by (auto simp: load_libgmt_def split: py_error.splits)
next
  assume "load_libgmt sys_platform os_environ dlopen env = Inr libgmt"
  then show "check_libgmt libgmt = Inr ()"
    by (auto simp: load_libgmt_def split: sum.splits py_error.splits)
qed

theorem load_libgmt_errors_witness:
  "load_libgmt ''darwin'' Map.empty (\<lambda>p. Inl ''image not found'') None =
     Inl (GMTCLibNotFoundError
           (''Couldn't find the GMT shared library '' @ squoted ''libgmt.dylib'' @ ''.'' @ [CHR 0x0A] @
            ''Original error message:'' @ [CHR 0x0A] @ ''image not found'')) \<and>
   load_libgmt ''linux'' Map.empty
       (\<lambda>p. Inr \<lparr>lib_name = p, symbols = [''GMT_Create_Session'']\<rparr>)
       (Some [''GMT_LIBRARY_PATH'' \<mapsto> ''/opt/gmt'']) =
     Inl (GMTCLibError (missing_msg ''Get_Enum'')) \<and>
   load_libgmt ''linux'' Map.empty
       (\<lambda>p. Inr \<lparr>lib_name = p, symbols = [''GMT_Create_Session'', ''GMT_Get_Enum'',
                                            ''GMT_Call_Module'', ''GMT_Destroy_Session'']\<rparr>)
       (Some [''GMT_LIBRARY_PATH'' \<mapsto> ''/opt/gmt'']) =
     Inr \<lparr>lib_name = ''/opt/gmt/libgmt.so'', symbols = [''GMT_Create_Session'', ''GMT_Get_Enum'',
                                            ''GMT_Call_Module'', ''GMT_Destroy_Session'']\<rparr> \<and>
   check_libgmt \<lparr>lib_name = ''/opt/gmt/libgmt.so'', symbols = [''GMT_Create_Session'', ''GMT_Get_Enum'',
                                            ''GMT_Call_Module'', ''GMT_Destroy_Session'']\<rparr> = Inr ()"
proof -
  let ?env = "Some [''GMT_LIBRARY_PATH'' \<mapsto> ''/opt/gmt'']"
  let ?fail = "\<lambda>p :: string. Inl ''image not found'' :: string + cdll"
  let ?bad = "\<lambda>p. Inr \<lparr>lib_name = p, symbols = [''GMT_Create_Session'']\<rparr> :: string + cdll"
  let ?good = "\<lambda>p. Inr \<lparr>lib_name = p, symbols = [''GMT_Create_Session'', ''GMT_Get_Enum'',
      ''GMT_Call_Module'', ''GMT_Destroy_Session'']\<rparr> :: string + cdll"
  let ?lib = "\<lparr>lib_name = ''/opt/gmt/libgmt.so'', symbols = [''GMT_Create_Session'', ''GMT_Get_Enum'',
      ''GMT_Call_Module'', ''GMT_Destroy_Session'']\<rparr>"
  have p1: "get_clib_path ''darwin'' Map.empty None = Inr ''libgmt.dylib'' \<and>
      ?fail ''libgmt.dylib'' = Inl ''image not found''"
    by (simp add: get_clib_path_def clib_extension_def)
  have w1: "load_libgmt ''darwin'' Map.empty ?fail None =
     Inl (GMTCLibNotFoundError
           (''Couldn't find the GMT shared library '' @ squoted ''libgmt.dylib'' @ ''.'' @ [CHR 0x0A] @
            ''Original error message:'' @ [CHR 0x0A] @ ''image not found''))"
    using p1 load_libgmt_errors [where sys_platform = "''darwin''" and os_environ = Map.empty
        and env = None and libpath = "''libgmt.dylib''" and dlopen = ?fail
        and err = "''image not found''"]
    by blast
  have p2: "get_clib_path ''linux'' Map.empty ?env = Inr ''/opt/gmt/libgmt.so'' \<and>
      ?bad ''/opt/gmt/libgmt.so'' =
        Inr \<lparr>lib_name = ''/opt/gmt/libgmt.so'', symbols = [''GMT_Create_Session'']\<rparr> \<and>
      check_libgmt \<lparr>lib_name = ''/opt/gmt/libgmt.so'', symbols = [''GMT_Create_Session'']\<rparr> =
        Inl (GMTCLibError (missing_msg ''Get_Enum''))"
    by (simp add: get_clib_path_def clib_extension_def path_join_def check_libgmt_def
        functions_list_def hasattr_def)
  have w2: "load_libgmt ''linux'' Map.empty ?bad ?env = Inl (GMTCLibError (missing_msg ''Get_Enum''))"
    using p2 load_libgmt_errors [where sys_platform = "''linux''" and os_environ = Map.empty
        and env = ?env and libpath = "''/opt/gmt/libgmt.so''" and dlopen = ?bad
        and libgmt = "\<lparr>lib_name = ''/opt/gmt/libgmt.so'', symbols = [''GMT_Create_Session'']\<rparr>"
        and e = "GMTCLibError (missing_msg ''Get_Enum'')"]
    by blast
  have w3: "load_libgmt ''linux'' Map.empty ?good ?env = Inr ?lib"
    by (simp add: load_libgmt_def get_clib_path_def clib_extension_def path_join_def
        check_libgmt_def functions_list_def hasattr_def)
  have w4: "check_libgmt ?lib = Inr ()"
    using w3 load_libgmt_errors [where sys_platform = "''linux''" and os_environ = Map.empty
        and env = ?env and dlopen = ?good and libgmt = ?lib]
    by blast
  show ?thesis
    by (rule conjI [OF w1 conjI [OF w2 conjI [OF w3 w4]]])
qed

text \<open>
  Claim C8 (Library Locator). With the extension given by the Platform Resolver for the
  running platform: when the environment mapping holds \<^verbatim>\<open>GMT_LIBRARY_PATH\<close>, the
  result is that directory joined with \<^verbatim>\<open>libgmt.<ext>\<close> (so \<^verbatim>\<open>/opt/gmt\<close> gives
  \<^verbatim>\<open>/opt/gmt/libgmt.<ext>\<close>); when it does not, as for the empty mapping, the result
  is the bare file name \<^verbatim>\<open>libgmt.<ext>\<close>.
\<close>

theorem get_clib_path_result:
  "clib_extension sys_platform None = Inr ext \<Longrightarrow>
   (env ''GMT_LIBRARY_PATH'' = Some dir \<longrightarrow>
      get_clib_path sys_platform os_environ (Some env) = Inr (path_join dir (''libgmt.'' @ ext)) \<and>
      path_join dir (''libgmt.'' @ ext) =
        (if dir = [] \<or> last dir = CHR ''/'' then dir @ ''libgmt.'' @ ext
         else dir @ ''/'' @ ''libgmt.'' @ ext)) \<and>
   (env ''GMT_LIBRARY_PATH'' = None \<longrightarrow>
      get_clib_path sys_platform os_environ (Some env) = Inr (''libgmt.'' @ ext)) \<and>
   get_clib_path sys_platform os_environ (Some [''GMT_LIBRARY_PATH'' \<mapsto> ''/opt/gmt'']) =
     Inr (''/opt/gmt/libgmt.'' @ ext) \<and>
   get_clib_path sys_platform os_environ (Some Map.empty) = Inr (''libgmt.'' @ ext)"
  by (simp add: get_clib_path_def path_join_def)

theorem get_clib_path_result_witness:
  "clib_extension ''linux'' None = Inr ''so'' \<and>
   get_clib_path ''linux'' Map.empty (Some [''GMT_LIBRARY_PATH'' \<mapsto> ''/usr/lib/'', ''HOME'' \<mapsto> ''/root'']) =
     Inr ''/usr/lib/libgmt.so'' \<and>
   get_clib_path ''linux'' Map.empty (Some [''HOME'' \<mapsto> ''/root'']) = Inr ''libgmt.so'' \<and>
   get_clib_path ''linux'' Map.empty (Some [''GMT_LIBRARY_PATH'' \<mapsto> ''/opt/gmt'']) =
     Inr ''/opt/gmt/libgmt.so''"
proof -
  have ext: "clib_extension ''linux'' None = Inr ''so''"
    by (simp add: clib_extension_def)
  show ?thesis
    using ext
      get_clib_path_result [OF ext, of "[''GMT_LIBRARY_PATH'' \<mapsto> ''/usr/lib/'', ''HOME'' \<mapsto> ''/root'']" "''/usr/lib/''" Map.empty]
      get_clib_path_result [OF ext, of "[''HOME'' \<mapsto> ''/root'']" "[]" Map.empty]
    by simp
qed

text \<open>
  Claim C9 (Grid Extractor, typed failures). Every failure of the extractor should be one
  of the typed error kinds, also for an axis with fewer than two coordinates. Such an
  axis has no consecutive difference, and taking the first one raises Python's
  \<^verbatim>\<open>IndexError\<close>, which is none of them: here on a grid of one row and three columns.
\<close>

theorem dataarray_to_matrix_single_point_axis:
  "dataarray_to_matrix (int_ops Int16) [[1, 2, 3 :: real]]
     \<lparr>dims = [''lat'', ''lon''],
      coords = [''lat'' \<mapsto> [0], ''lon'' \<mapsto> [0, 1, 2]],
      grid_values = \<lparr>data = 0, offset = 0, shape = [1, 3], strides = [3, 1]\<rparr>\<rparr> =
     Inl IndexError \<and>
   \<not> is_gmt_error IndexError"
  by (simp add: dataarray_to_matrix_def dim_step_def coord_values_def coord_diffs_def
      int_ops_def wrap_def array_min_def array_max_def)




end
